theory Spec2Isabelle
  imports Main
begin

section \<open>JavaScript values and property lookup\<close>

text \<open>
  The role router reads a property of an object literal and combines the result with
  \<^verbatim>\<open>||\<close>. Both operations are defined on arbitrary JavaScript values, so the
  values that can occur are modelled explicitly: \<^verbatim>\<open>undefined\<close>, a string, or one of
  the built-in objects and functions of the language (named by its intrinsic).
\<close>

datatype js_value = Undefined | Str string | Builtin string

text \<open>ToBoolean: \<^verbatim>\<open>undefined\<close> and the empty string are falsy, every object is truthy.\<close>

fun truthy :: "js_value \<Rightarrow> bool" where
  "truthy Undefined = False"
| "truthy (Str s) = (s \<noteq> [])"
| "truthy (Builtin b) = True"

text \<open>\<^verbatim>\<open>a || b\<close> evaluates to \<^verbatim>\<open>a\<close> when it is truthy and to \<^verbatim>\<open>b\<close> otherwise.\<close>

definition js_or :: "js_value \<Rightarrow> js_value \<Rightarrow> js_value" where
  "js_or a b = (if truthy a then a else b)"

text \<open>
  An object literal \<^verbatim>\<open>{ ... }\<close> has \<^verbatim>\<open>Object.prototype\<close> as its prototype. These are
  the properties of \<^verbatim>\<open>Object.prototype\<close> (ECMAScript, including the Annex B
  properties every browser provides); reading \<^verbatim>\<open>__proto__\<close> yields the prototype
  object itself.
\<close>

definition Object_prototype :: "(string \<times> js_value) list" where
  "Object_prototype =
    [(''constructor'', Builtin ''Object''),
     (''hasOwnProperty'', Builtin ''Object.prototype.hasOwnProperty''),
     (''isPrototypeOf'', Builtin ''Object.prototype.isPrototypeOf''),
     (''propertyIsEnumerable'', Builtin ''Object.prototype.propertyIsEnumerable''),
     (''toLocaleString'', Builtin ''Object.prototype.toLocaleString''),
     (''toString'', Builtin ''Object.prototype.toString''),
     (''valueOf'', Builtin ''Object.prototype.valueOf''),
     (''__proto__'', Builtin ''Object.prototype''),
     (''__defineGetter__'', Builtin ''Object.prototype.__defineGetter__''),
     (''__defineSetter__'', Builtin ''Object.prototype.__defineSetter__''),
     (''__lookupGetter__'', Builtin ''Object.prototype.__lookupGetter__''),
     (''__lookupSetter__'', Builtin ''Object.prototype.__lookupSetter__'')]"

text \<open>
  \<^verbatim>\<open>obj[key]\<close> on an object literal with own properties \<open>own\<close>: the own property if
  there is one, else the property inherited from \<^verbatim>\<open>Object.prototype\<close>, else
  \<^verbatim>\<open>undefined\<close>.
\<close>

definition js_get :: "(string \<times> js_value) list \<Rightarrow> string \<Rightarrow> js_value" where
  "js_get own key =
    (case map_of own key of
       Some v \<Rightarrow> v
     | None \<Rightarrow> (case map_of Object_prototype key of Some v \<Rightarrow> v | None \<Rightarrow> Undefined))"

section \<open>Role Router\<close>

text \<open>
  \<^verbatim>\<open>getRoleBasedRoute\<close> of \<^verbatim>\<open>client/src/App.tsx\<close> (the react-router application):
  the table \<^verbatim>\<open>routes\<close> and \<^verbatim>\<open>return routes[role] || "/dashboard"\<close>.
\<close>

definition routes :: "(string \<times> js_value) list" where
  "routes =
    [(''super_admin'', Str ''/admin''),
     (''admin'', Str ''/admin''),
     (''builder'', Str ''/builder-dashboard''),
     (''telecaller'', Str ''/telecaller''),
     (''broker'', Str ''/broker''),
     (''ca'', Str ''/ca''),
     (''user'', Str ''/dashboard'')]"

definition getRoleBasedRoute :: "string \<Rightarrow> js_value" where
  "getRoleBasedRoute role = js_or (js_get routes role) (Str ''/dashboard'')"

text \<open>The function of the same name in the wouter application, with its own table.\<close>

definition routes_wouter :: "(string \<times> js_value) list" where
  "routes_wouter =
    [(''super_admin'', Str ''/admin''),
     (''admin'', Str ''/admin''),
     (''builder'', Str ''/builder-dashboard''),
     (''telecaller'', Str ''/telecaller''),
     (''broker'', Str ''/broker''),
     (''ca'', Str ''/ca''),
     (''user'', Str ''/dashboard'')]"

definition getRoleBasedRoute_wouter :: "string \<Rightarrow> js_value" where
  "getRoleBasedRoute_wouter role = js_or (js_get routes_wouter role) (Str ''/dashboard'')"

section \<open>Session provider\<close>

text \<open>
  \<^verbatim>\<open>useAuth()\<close> yields \<^verbatim>\<open>{ user, isLoading, logout }\<close>. The user is an object or
  \<^verbatim>\<open>null\<close>; React compares effect dependencies by object identity, so a user object
  carries its identity \<open>ref\<close> beside its role. The logout operation is optional; when
  present it is a function, known by its identity.
\<close>

record session =
  ref :: nat
  role :: string

record auth =
  user :: "session option"
  isLoading :: bool
  logout :: "nat option"

section \<open>What a component renders\<close>

text \<open>
  The element a component function returns: the loading spinner, a redirect
  (\<^verbatim>\<open><Navigate to=... />\<close> of react-router, \<^verbatim>\<open><Redirect to=... />\<close> of wouter), the
  imported \<^verbatim>\<open><RoleBasedRedirect />\<close> component, the authenticated layout around the
  child view, or the bare children of a public route.
\<close>

datatype view = Spinner | RedirectTo js_value | RoleBasedRedirect | ProtectedContent | PublicContent

fun is_redirect :: "view \<Rightarrow> bool" where
  "is_redirect (RedirectTo p) = True"
| "is_redirect RoleBasedRedirect = True"
| "is_redirect Spinner = False"
| "is_redirect ProtectedContent = False"
| "is_redirect PublicContent = False"

section \<open>Route Guard, Public Route Gate and root redirect: the rendered element\<close>

text \<open>\<^verbatim>\<open>ProtectedLayout\<close> of \<^verbatim>\<open>client/src/App.tsx\<close>, the part after the hooks.\<close>

definition ProtectedLayout :: "auth \<Rightarrow> view" where
  "ProtectedLayout a =
    (if isLoading a then Spinner
     else case user a of
       None \<Rightarrow> RedirectTo (Str ''/login'')
     | Some u \<Rightarrow> ProtectedContent)"

definition PublicRoute :: "auth \<Rightarrow> view" where
  "PublicRoute a =
    (if isLoading a then Spinner
     else case user a of
       Some u \<Rightarrow> RoleBasedRedirect
     | None \<Rightarrow> PublicContent)"

definition RoleBasedRedirectWrapper :: "auth \<Rightarrow> view" where
  "RoleBasedRedirectWrapper a =
    (if isLoading a then Spinner
     else RedirectTo (case user a of
                        Some u \<Rightarrow> getRoleBasedRoute (role u)
                      | None \<Rightarrow> Str ''/login''))"

text \<open>Their counterparts in the wouter application.\<close>

definition ProtectedRoute :: "auth \<Rightarrow> view" where
  "ProtectedRoute a =
    (if isLoading a then Spinner
     else case user a of
       None \<Rightarrow> RedirectTo (Str ''/login'')
     | Some u \<Rightarrow> ProtectedContent)"

definition PublicRoute_wouter :: "auth \<Rightarrow> view" where
  "PublicRoute_wouter a =
    (if isLoading a then Spinner
     else case user a of
       Some u \<Rightarrow> RoleBasedRedirect
     | None \<Rightarrow> PublicContent)"

text \<open>The wouter wrapper reads only \<^verbatim>\<open>user\<close> from \<^verbatim>\<open>useAuth()\<close>.\<close>

definition RoleBasedRedirectWrapper_wouter :: "auth \<Rightarrow> view" where
  "RoleBasedRedirectWrapper_wouter a =
    RedirectTo (case user a of
                  Some u \<Rightarrow> getRoleBasedRoute_wouter (role u)
                | None \<Rightarrow> Str ''/login'')"

section \<open>Route Guard: the role-change effect\<close>

text \<open>
  What one guard instance keeps between renders: the ref \<^verbatim>\<open>initialRoleRef\<close>
  (\<^verbatim>\<open>null\<close> at mount), the dependency values React remembers from the last run of the
  effect (none before the first), and how many times the instance has called
  \<^verbatim>\<open>logout()\<close>.
\<close>

record guard =
  initialRoleRef :: "string option"
  lastDeps :: "(nat option \<times> nat option) option"
  logoutCalls :: nat

definition mounted :: guard where
  "mounted = \<lparr>initialRoleRef = None, lastDeps = None, logoutCalls = 0\<rparr>"

text \<open>\<^verbatim>\<open>!initialRoleRef.current\<close>: true for \<^verbatim>\<open>null\<close> and for the empty string.\<close>

definition not_current :: "string option \<Rightarrow> bool" where
  "not_current c = (case c of None \<Rightarrow> True | Some s \<Rightarrow> s = [])"

text \<open>The body of the effect in \<^verbatim>\<open>ProtectedLayout\<close>.\<close>

definition ProtectedLayout_effect :: "auth \<Rightarrow> guard \<Rightarrow> guard" where
  "ProtectedLayout_effect a g =
    (case user a of
       None \<Rightarrow> g
     | Some u \<Rightarrow>
         (let g1 = (if not_current (initialRoleRef g)
                    then g\<lparr>initialRoleRef := Some (role u)\<rparr> else g)
          in if initialRoleRef g1 \<noteq> Some (role u)
             then (case logout a of
                     Some f \<Rightarrow> g1\<lparr>logoutCalls := Suc (logoutCalls g1)\<rparr>
                   | None \<Rightarrow> g1)
             else g1))"

text \<open>The body of the effect in \<^verbatim>\<open>ProtectedRoute\<close> of the wouter application.\<close>

definition ProtectedRoute_effect :: "auth \<Rightarrow> guard \<Rightarrow> guard" where
  "ProtectedRoute_effect a g =
    (case user a of
       None \<Rightarrow> g
     | Some u \<Rightarrow>
         (let g1 = (if not_current (initialRoleRef g)
                    then g\<lparr>initialRoleRef := Some (role u)\<rparr> else g)
          in if initialRoleRef g1 \<noteq> Some (role u)
             then (case logout a of
                     Some f \<Rightarrow> g1\<lparr>logoutCalls := Suc (logoutCalls g1)\<rparr>
                   | None \<Rightarrow> g1)
             else g1))"

text \<open>
  \<^verbatim>\<open>useEffect(body, [user, logout])\<close>: after a render React runs the body when the
  instance has just mounted or when a dependency is not identical to its value at the
  previous render, and remembers the new dependency values. The loading flag plays no
  part.
\<close>

definition deps :: "auth \<Rightarrow> nat option \<times> nat option" where
  "deps a = (map_option ref (user a), logout a)"

definition useEffect :: "(auth \<Rightarrow> guard \<Rightarrow> guard) \<Rightarrow> auth \<Rightarrow> guard \<Rightarrow> guard" where
  "useEffect body a g =
    (if lastDeps g = Some (deps a) then g else (body a g)\<lparr>lastDeps := Some (deps a)\<rparr>)"

text \<open>A mounted instance rendered once for each value the session provider delivers.\<close>

fun renders :: "(auth \<Rightarrow> guard \<Rightarrow> guard) \<Rightarrow> guard \<Rightarrow> auth list \<Rightarrow> guard" where
  "renders body g [] = g"
| "renders body g (a # as) = renders body (useEffect body a g) as"

section \<open>Upload Widget\<close>

text \<open>
  \<^verbatim>\<open>FileUploader\<close> of \<^verbatim>\<open>client/src/components/ui/file-uploader.tsx\<close>. The first four
  fields are the component's \<^verbatim>\<open>useState\<close> cells (the field \<open>file_state\<close> is the cell
  \<^verbatim>\<open>file\<close>). The last three are what the widget has asked of its environment: the
  arguments of every call of the injected \<^verbatim>\<open>onFileUpload\<close> in order, the number of
  those calls whose promise has not settled, and the number of \<^verbatim>\<open>setTimeout\<close>
  callbacks scheduled and not yet run. The value of the hidden file input, which no
  handler reads, is left out.
\<close>

record 'f widget =
  file_state :: "'f option"
  isDragging :: bool
  isUploading :: bool
  uploadSuccess :: bool
  calls :: "'f list"
  inflight :: nat
  timers :: nat

definition init :: "'f widget" where
  "init = \<lparr>file_state = None, isDragging = False, isUploading = False, uploadSuccess = False,
           calls = [], inflight = 0, timers = 0\<rparr>"

definition handleDragEnter :: "'f widget \<Rightarrow> 'f widget" where
  "handleDragEnter w = w\<lparr>isDragging := True\<rparr>"

definition handleDragLeave :: "'f widget \<Rightarrow> 'f widget" where
  "handleDragLeave w = w\<lparr>isDragging := False\<rparr>"

text \<open>The handlers take the file list of the event (\<^verbatim>\<open>e.dataTransfer.files\<close>, \<^verbatim>\<open>e.target.files\<close>).\<close>

definition handleDrop :: "'f list \<Rightarrow> 'f widget \<Rightarrow> 'f widget" where
  "handleDrop files w =
    (let w1 = w\<lparr>isDragging := False\<rparr>
     in case files of
          [] \<Rightarrow> w1
        | f # rest \<Rightarrow> w1\<lparr>file_state := Some f, uploadSuccess := False\<rparr>)"

definition handleFileChange :: "'f list \<Rightarrow> 'f widget \<Rightarrow> 'f widget" where
  "handleFileChange files w =
    (case files of
       [] \<Rightarrow> w
     | f # rest \<Rightarrow> w\<lparr>file_state := Some f, uploadSuccess := False\<rparr>)"

definition handleClearFile :: "'f widget \<Rightarrow> 'f widget" where
  "handleClearFile w = w\<lparr>file_state := None, uploadSuccess := False\<rparr>"

text \<open>
  \<^verbatim>\<open>handleUpload\<close> is asynchronous. Its first part runs up to the \<^verbatim>\<open>await\<close>: the guard
  on \<^verbatim>\<open>file\<close>, the two state updates and the call \<^verbatim>\<open>onFileUpload(file)\<close>.
\<close>

definition handleUpload :: "'f widget \<Rightarrow> 'f widget" where
  "handleUpload w =
    (case file_state w of
       None \<Rightarrow> w
     | Some f \<Rightarrow> w\<lparr>isUploading := True, uploadSuccess := False,
                    calls := calls w @ [f], inflight := Suc (inflight w)\<rparr>)"

text \<open>
  Its second part runs when the promise settles: \<^verbatim>\<open>setUploadSuccess(true)\<close> after a
  resolution, the \<^verbatim>\<open>catch\<close> block (which only logs) after a rejection, and in both
  cases the \<^verbatim>\<open>finally\<close> block, which resets \<^verbatim>\<open>isUploading\<close> and schedules
  \<^verbatim>\<open>handleClearFile\<close> with \<^verbatim>\<open>setTimeout\<close>.
\<close>

datatype outcome = Resolved | Rejected

definition handleUpload_settled :: "outcome \<Rightarrow> 'f widget \<Rightarrow> 'f widget" where
  "handleUpload_settled r w =
    (let w1 = (case r of Resolved \<Rightarrow> w\<lparr>uploadSuccess := True\<rparr> | Rejected \<Rightarrow> w)
     in w1\<lparr>isUploading := False, timers := Suc (timers w1), inflight := inflight w1 - 1\<rparr>)"

text \<open>The scheduled callback \<^verbatim>\<open>() => { handleClearFile(); }\<close>, when its delay has passed.\<close>

definition timeout_callback :: "'f widget \<Rightarrow> 'f widget" where
  "timeout_callback w = (handleClearFile w)\<lparr>timers := timers w - 1\<rparr>"

text \<open>The \<^verbatim>\<open>disabled\<close> attribute of the submit button.\<close>

definition submit_disabled :: "'f widget \<Rightarrow> bool" where
  "submit_disabled w = (file_state w = None \<or> isUploading w \<or> uploadSuccess w)"

text \<open>
  What can happen to a mounted widget: the drag-and-drop and picker events, a click on
  Remove, a click on the submit button (which reaches \<^verbatim>\<open>handleUpload\<close> only when the
  button is not disabled), the settling of a pending upload, and the expiry of a
  scheduled timeout. The user interface events are accepted in every state, which is
  more than the rendered markup offers.
\<close>

datatype 'f event =
    DragEnter | DragLeave | Drop "'f list" | FileChange "'f list"
  | ClickRemove | ClickUpload | UploadSettles outcome | TimeoutFires

fun step :: "'f widget \<Rightarrow> 'f event \<Rightarrow> 'f widget" where
  "step w DragEnter = handleDragEnter w"
| "step w DragLeave = handleDragLeave w"
| "step w (Drop files) = handleDrop files w"
| "step w (FileChange files) = handleFileChange files w"
| "step w ClickRemove = handleClearFile w"
| "step w ClickUpload = (if submit_disabled w then w else handleUpload w)"
| "step w (UploadSettles r) = (if inflight w = 0 then w else handleUpload_settled r w)"
| "step w TimeoutFires = (if timers w = 0 then w else timeout_callback w)"

fun run :: "'f widget \<Rightarrow> 'f event list \<Rightarrow> 'f widget" where
  "run w [] = w"
| "run w (e # es) = run (step w e) es"

section \<open>Properties of the Role Router\<close>

lemma getRoleBasedRoute_mapped:
  "getRoleBasedRoute ''super_admin'' = Str ''/admin''"
  "getRoleBasedRoute ''admin'' = Str ''/admin''"
  "getRoleBasedRoute ''builder'' = Str ''/builder-dashboard''"
  "getRoleBasedRoute ''telecaller'' = Str ''/telecaller''"
  "getRoleBasedRoute ''broker'' = Str ''/broker''"
  "getRoleBasedRoute ''ca'' = Str ''/ca''"
  "getRoleBasedRoute ''user'' = Str ''/dashboard''"
  "getRoleBasedRoute [] = Str ''/dashboard''"
  by (simp_all add: getRoleBasedRoute_def js_get_def js_or_def routes_def Object_prototype_def)

text \<open>
  A role that is neither a key of the table nor the name of a property inherited from
  \<^verbatim>\<open>Object.prototype\<close> falls back to the default landing path.
\<close>

lemma getRoleBasedRoute_default:
  assumes "map_of routes r = None" and "map_of Object_prototype r = None"
  shows "getRoleBasedRoute r = Str ''/dashboard''"
  using assms by (simp add: getRoleBasedRoute_def js_get_def js_or_def)

lemma getRoleBasedRoute_default_example:
  "getRoleBasedRoute ''manager'' = Str ''/dashboard''"
  by (simp add: getRoleBasedRoute_def js_get_def js_or_def routes_def Object_prototype_def)

text \<open>
  C1. Every role string outside the table is to be sent to \<^verbatim>\<open>/dashboard\<close>, as the
  mapped roles are sent to their documented paths (\<open>getRoleBasedRoute_mapped\<close>). The
  role \<^verbatim>\<open>"constructor"\<close> is not in the table, yet
  \<^verbatim>\<open>routes["constructor"]\<close> is the inherited function \<^verbatim>\<open>Object\<close>, which is truthy, so
  the router returns that function: neither \<^verbatim>\<open>/dashboard\<close> nor a string at all, against
  the declared return type \<^verbatim>\<open>string\<close>.
\<close>

theorem getRoleBasedRoute_inherited_key:
  "getRoleBasedRoute ''constructor'' = Builtin ''Object'' \<and>
   getRoleBasedRoute ''constructor'' \<noteq> Str ''/dashboard'' \<and>
   getRoleBasedRoute_wouter ''constructor'' = Builtin ''Object''"
  by (simp add: getRoleBasedRoute_def getRoleBasedRoute_wouter_def js_get_def js_or_def
      routes_def routes_wouter_def Object_prototype_def)

text \<open>
  C9. The role routers of the two applications agree: on every role string they return
  the same value.
\<close>

theorem getRoleBasedRoute_variants_agree:
  "getRoleBasedRoute r = getRoleBasedRoute_wouter r"
  by (simp add: getRoleBasedRoute_def getRoleBasedRoute_wouter_def routes_def routes_wouter_def)

section \<open>Properties of the rendered element\<close>

text \<open>The root redirect of the react-router application waits for the loading flag.\<close>

lemma RoleBasedRedirectWrapper_waits:
  "RoleBasedRedirectWrapper a =
     (if isLoading a then Spinner
      else case user a of
             None \<Rightarrow> RedirectTo (Str ''/login'')
           | Some u \<Rightarrow> RedirectTo (getRoleBasedRoute (role u)))"
  by (simp add: RoleBasedRedirectWrapper_def split: option.splits)

lemma broker_lands_on_broker:
  "RoleBasedRedirectWrapper
     \<lparr>user = Some \<lparr>ref = 1, role = ''broker''\<rparr>, isLoading = False, logout = Some 0\<rparr>
   = RedirectTo (Str ''/broker'')"
  by (simp add: RoleBasedRedirectWrapper_def getRoleBasedRoute_mapped)

text \<open>
  C5. The root redirect wrapper is to show a placeholder while the session is loading
  and to redirect only afterwards. The wrapper of the wouter application never reads
  the loading flag: with loading true and no session yet it redirects to \<^verbatim>\<open>/login\<close> at
  once, where the wrapper of the react-router application shows the spinner.
\<close>

theorem wouter_wrapper_redirects_while_loading:
  "RoleBasedRedirectWrapper_wouter \<lparr>user = None, isLoading = True, logout = None\<rparr>
     = RedirectTo (Str ''/login'') \<and>
   RoleBasedRedirectWrapper \<lparr>user = None, isLoading = True, logout = None\<rparr> = Spinner"
  by (simp add: RoleBasedRedirectWrapper_wouter_def RoleBasedRedirectWrapper_def)

text \<open>
  C6. While the loading flag is true, whatever the session is, the Route Guard and the
  Public Route Gate of both applications render the spinner and no redirect.
\<close>

theorem loading_never_redirects:
  assumes "isLoading a"
  shows "ProtectedLayout a = Spinner \<and> PublicRoute a = Spinner \<and>
         ProtectedRoute a = Spinner \<and> PublicRoute_wouter a = Spinner \<and>
         \<not> is_redirect (ProtectedLayout a) \<and> \<not> is_redirect (PublicRoute a) \<and>
         \<not> is_redirect (ProtectedRoute a) \<and> \<not> is_redirect (PublicRoute_wouter a)"
  using assms
  by (simp add: ProtectedLayout_def PublicRoute_def ProtectedRoute_def PublicRoute_wouter_def)

theorem loading_never_redirects_witness:
  "isLoading \<lparr>user = Some \<lparr>ref = 1, role = ''broker''\<rparr>, isLoading = True, logout = Some 0\<rparr> \<and>
   ProtectedLayout
     \<lparr>user = Some \<lparr>ref = 1, role = ''broker''\<rparr>, isLoading = True, logout = Some 0\<rparr> = Spinner \<and>
   PublicRoute
     \<lparr>user = Some \<lparr>ref = 1, role = ''broker''\<rparr>, isLoading = True, logout = Some 0\<rparr> = Spinner"
proof -
  let ?a = "\<lparr>user = Some \<lparr>ref = 1, role = ''broker''\<rparr>, isLoading = True, logout = Some (0::nat)\<rparr>"
  have h: "isLoading ?a" by simp
  show ?thesis using h loading_never_redirects [OF h] by simp
qed

text \<open>
  C7. With no session and the loading flag false, the Route Guard of either application
  redirects to \<^verbatim>\<open>/login\<close> and does not render the protected content.
\<close>

theorem guard_redirects_to_login:
  assumes "user a = None" and "\<not> isLoading a"
  shows "ProtectedLayout a = RedirectTo (Str ''/login'') \<and>
         ProtectedRoute a = RedirectTo (Str ''/login'') \<and>
         ProtectedLayout a \<noteq> ProtectedContent \<and> ProtectedRoute a \<noteq> ProtectedContent"
  using assms by (simp add: ProtectedLayout_def ProtectedRoute_def)

theorem guard_redirects_to_login_witness:
  "user \<lparr>user = None, isLoading = False, logout = Some 0\<rparr> = None \<and>
   \<not> isLoading \<lparr>user = None, isLoading = False, logout = Some 0\<rparr> \<and>
   ProtectedLayout \<lparr>user = None, isLoading = False, logout = Some 0\<rparr>
     = RedirectTo (Str ''/login'')"
proof -
  let ?a = "\<lparr>user = None, isLoading = False, logout = Some (0::nat)\<rparr>"
  have h1: "user ?a = None" and h2: "\<not> isLoading ?a" by simp_all
  show ?thesis using h1 h2 guard_redirects_to_login [OF h1 h2] by simp
qed

section \<open>Properties of the role-change effect\<close>

lemma ProtectedRoute_effect_eq: "ProtectedRoute_effect = ProtectedLayout_effect"
  by (rule ext, rule ext) (simp add: ProtectedRoute_effect_def ProtectedLayout_effect_def)

text \<open>A non-empty baseline survives every later render of the instance.\<close>

lemma useEffect_baseline_kept:
  assumes "initialRoleRef g = Some b" and "b \<noteq> []"
  shows "initialRoleRef (useEffect ProtectedLayout_effect a g) = Some b"
  using assms
  by (simp add: useEffect_def ProtectedLayout_effect_def not_current_def Let_def
      split: option.splits)

lemma renders_baseline_kept:
  assumes "initialRoleRef g = Some b" and "b \<noteq> []"
  shows "initialRoleRef (renders ProtectedLayout_effect g as) = Some b"
  using assms
  by (induction as arbitrary: g) (simp_all add: useEffect_baseline_kept)

text \<open>Renders that deliver the identical user object and logout function run no effect.\<close>

lemma renders_same_deps:
  assumes "lastDeps g = Some (Some (ref u), Some f)"
  shows "renders body g (map (\<lambda>l. \<lparr>user = Some u, isLoading = l, logout = Some f\<rparr>) ls) = g"
  using assms
  by (induction ls) (simp_all add: useEffect_def deps_def)

text \<open>Rendering a sequence in two parts; the dependencies React remembers.\<close>

lemma renders_append:
  "renders body g (as @ bs) = renders body (renders body g as) bs"
  by (induction as arbitrary: g) simp_all

lemma useEffect_lastDeps: "lastDeps (useEffect body a g) = Some (deps a)"
  by (simp add: useEffect_def)

lemma renders_lastDeps:
  "as \<noteq> [] \<Longrightarrow> lastDeps (renders body g as) = Some (deps (last as))"
proof (induction as arbitrary: g)
  case Nil
  then show ?case by simp
next
  case (Cons a as)
  show ?case
  proof (cases "as = []")
    case True
    then show ?thesis by (simp add: useEffect_lastDeps)
  next
    case False
    then show ?thesis using Cons.IH [OF False] by simp
  qed
qed

text \<open>
  Renders that carry no session or a session with the baseline role \<open>b\<close> invoke no
  logout, from a guard that has recorded \<open>b\<close> or has not yet seen a session; the first
  of them that carries a session records \<open>b\<close>.
\<close>

lemma effect_baseline_role:
  assumes "b \<noteq> []"
    and "initialRoleRef g = Some b \<or> initialRoleRef g = None"
    and "\<forall>u. user a = Some u \<longrightarrow> role u = b"
  shows "logoutCalls (ProtectedLayout_effect a g) = logoutCalls g"
    and "lastDeps (ProtectedLayout_effect a g) = lastDeps g"
    and "initialRoleRef (ProtectedLayout_effect a g) =
           (if user a = None then initialRoleRef g else Some b)"
proof -
  show "logoutCalls (ProtectedLayout_effect a g) = logoutCalls g"
  proof (cases "user a")
    case None
    then show ?thesis by (simp add: ProtectedLayout_effect_def)
  next
    case (Some u)
    then have "role u = b" using assms(3) by simp
    then show ?thesis using Some assms(1,2)
      by (auto simp add: ProtectedLayout_effect_def not_current_def Let_def)
  qed
  show "lastDeps (ProtectedLayout_effect a g) = lastDeps g"
    by (simp add: ProtectedLayout_effect_def Let_def split: option.splits)
  show "initialRoleRef (ProtectedLayout_effect a g) =
           (if user a = None then initialRoleRef g else Some b)"
  proof (cases "user a")
    case None
    then show ?thesis by (simp add: ProtectedLayout_effect_def)
  next
    case (Some u)
    then have "role u = b" using assms(3) by simp
    then show ?thesis using Some assms(1,2)
      by (auto simp add: ProtectedLayout_effect_def not_current_def Let_def)
  qed
qed

lemma useEffect_baseline_role:
  assumes b: "b \<noteq> []"
    and inv: "initialRoleRef g = Some b \<or>
         (initialRoleRef g = None \<and> (case lastDeps g of None \<Rightarrow> True | Some d \<Rightarrow> fst d = None))"
    and a: "\<forall>u. user a = Some u \<longrightarrow> role u = b"
  shows "logoutCalls (useEffect ProtectedLayout_effect a g) = logoutCalls g"
    and "initialRoleRef (useEffect ProtectedLayout_effect a g) = Some b \<or>
         (initialRoleRef (useEffect ProtectedLayout_effect a g) = None \<and>
          (case lastDeps (useEffect ProtectedLayout_effect a g) of
             None \<Rightarrow> True | Some d \<Rightarrow> fst d = None))"
    and "user a \<noteq> None \<Longrightarrow> initialRoleRef (useEffect ProtectedLayout_effect a g) = Some b"
proof -
  have base: "initialRoleRef g = Some b \<or> initialRoleRef g = None" using inv by auto
  note eff = effect_baseline_role [OF b base a]
  show "logoutCalls (useEffect ProtectedLayout_effect a g) = logoutCalls g"
    by (simp add: useEffect_def eff(1))
  show "initialRoleRef (useEffect ProtectedLayout_effect a g) = Some b \<or>
         (initialRoleRef (useEffect ProtectedLayout_effect a g) = None \<and>
          (case lastDeps (useEffect ProtectedLayout_effect a g) of
             None \<Rightarrow> True | Some d \<Rightarrow> fst d = None))"
  proof (cases "lastDeps g = Some (deps a)")
    case True
    then show ?thesis using inv by (simp add: useEffect_def)
  next
    case False
    then show ?thesis using inv by (auto simp add: useEffect_def eff(3) deps_def)
  qed
  show "initialRoleRef (useEffect ProtectedLayout_effect a g) = Some b" if "user a \<noteq> None"
  proof (cases "lastDeps g = Some (deps a)")
    case True
    then have "initialRoleRef g = Some b" using inv that by (auto simp add: deps_def)
    then show ?thesis using True by (simp add: useEffect_def)
  next
    case False
    then show ?thesis using that by (auto simp add: useEffect_def eff(3))
  qed
qed

lemma renders_baseline_role:
  assumes "b \<noteq> []"
    and "initialRoleRef g = Some b \<or>
         (initialRoleRef g = None \<and> (case lastDeps g of None \<Rightarrow> True | Some d \<Rightarrow> fst d = None))"
    and "\<forall>a\<in>set pre. \<forall>u. user a = Some u \<longrightarrow> role u = b"
  shows "logoutCalls (renders ProtectedLayout_effect g pre) = logoutCalls g \<and>
         ((\<exists>a\<in>set pre. user a \<noteq> None) \<longrightarrow>
            initialRoleRef (renders ProtectedLayout_effect g pre) = Some b)"
  using assms(2,3)
proof (induction pre arbitrary: g)
  case Nil
  then show ?case by simp
next
  case (Cons a pre)
  let ?g = "useEffect ProtectedLayout_effect a g"
  have a: "\<forall>u. user a = Some u \<longrightarrow> role u = b" using Cons.prems(2) by simp
  have rest: "\<forall>a\<in>set pre. \<forall>u. user a = Some u \<longrightarrow> role u = b" using Cons.prems(2) by simp
  note step = useEffect_baseline_role [OF assms(1) Cons.prems(1) a]
  have ih: "logoutCalls (renders ProtectedLayout_effect ?g pre) = logoutCalls ?g \<and>
        ((\<exists>a\<in>set pre. user a \<noteq> None) \<longrightarrow>
           initialRoleRef (renders ProtectedLayout_effect ?g pre) = Some b)"
    by (rule Cons.IH [OF step(2) rest])
  have now: "initialRoleRef (renders ProtectedLayout_effect ?g pre) = Some b" if "user a \<noteq> None"
    using step(3) [OF that] assms(1) by (rule renders_baseline_kept)
  have calls: "logoutCalls (renders ProtectedLayout_effect g (a # pre)) = logoutCalls g"
    using ih step(1) by simp
  have seen: "initialRoleRef (renders ProtectedLayout_effect g (a # pre)) = Some b"
    if "\<exists>x\<in>set (a # pre). user x \<noteq> None"
  proof (cases "user a = None")
    case True
    then have "\<exists>x\<in>set pre. user x \<noteq> None" using that by simp
    then show ?thesis using ih by simp
  next
    case False
    then show ?thesis using now by simp
  qed
  show ?case using calls seen by blast
qed

text \<open>
  From a recorded non-empty baseline, a render with a new user object of another role
  invokes logout once, and its identical re-renders do not.
\<close>

lemma change_render_logs_out_once:
  assumes "initialRoleRef g = Some b" and "b \<noteq> []" and "role c \<noteq> b"
    and "lastDeps g \<noteq> Some (Some (ref c), Some f)"
  shows "logoutCalls (renders ProtectedLayout_effect g
           (map (\<lambda>l. \<lparr>user = Some c, isLoading = l, logout = Some f\<rparr>) (l # ls)))
           = Suc (logoutCalls g)"
proof -
  let ?a = "\<lparr>user = Some c, isLoading = l, logout = Some f\<rparr>"
  let ?g = "useEffect ProtectedLayout_effect ?a g"
  have calls: "logoutCalls ?g = Suc (logoutCalls g)"
    using assms
    by (auto simp add: useEffect_def deps_def ProtectedLayout_effect_def not_current_def Let_def)
  have "lastDeps ?g = Some (Some (ref c), Some f)"
    by (simp add: useEffect_def deps_def)
  then have "renders ProtectedLayout_effect ?g
      (map (\<lambda>l. \<lparr>user = Some c, isLoading = l, logout = Some f\<rparr>) ls) = ?g"
    by (rule renders_same_deps)
  with calls show ?thesis by simp
qed

text \<open>
  C4. A recorded baseline is to stay as it is until the guard is remounted, for every
  role string, the empty one included. A session whose role is the empty string is
  recorded as the baseline \<^verbatim>\<open>""\<close>, but the test \<^verbatim>\<open>!initialRoleRef.current\<close> takes that
  baseline for a missing one: the next session object, with role \<^verbatim>\<open>"admin"\<close>,
  overwrites it, and the role change goes unnoticed (no logout).
\<close>

theorem empty_baseline_overwritten:
  "initialRoleRef (renders ProtectedLayout_effect mounted
     [\<lparr>user = Some \<lparr>ref = 1, role = []\<rparr>, isLoading = False, logout = Some 0\<rparr>]) = Some [] \<and>
   initialRoleRef (renders ProtectedLayout_effect mounted
     [\<lparr>user = Some \<lparr>ref = 1, role = []\<rparr>, isLoading = False, logout = Some 0\<rparr>,
      \<lparr>user = Some \<lparr>ref = 2, role = ''admin''\<rparr>, isLoading = False, logout = Some 0\<rparr>])
     = Some ''admin'' \<and>
   logoutCalls (renders ProtectedLayout_effect mounted
     [\<lparr>user = Some \<lparr>ref = 1, role = []\<rparr>, isLoading = False, logout = Some 0\<rparr>,
      \<lparr>user = Some \<lparr>ref = 2, role = ''admin''\<rparr>, isLoading = False, logout = Some 0\<rparr>]) = 0 \<and>
   initialRoleRef (renders ProtectedRoute_effect mounted
     [\<lparr>user = Some \<lparr>ref = 1, role = []\<rparr>, isLoading = False, logout = Some 0\<rparr>,
      \<lparr>user = Some \<lparr>ref = 2, role = ''admin''\<rparr>, isLoading = False, logout = Some 0\<rparr>])
     = Some ''admin''"
  by (simp add: mounted_def useEffect_def deps_def not_current_def
      ProtectedLayout_effect_def ProtectedRoute_effect_def)

text \<open>
  C3, as stated: one role change gives exactly one logout, however many renders follow
  with the changed role. It fails: the baseline is \<^verbatim>\<open>"admin"\<close>, the role changes once, to
  \<^verbatim>\<open>"user"\<close>, and the session provider then delivers a second user object with the same
  role \<^verbatim>\<open>"user"\<close>; the effect runs again and logout has been invoked twice.
\<close>

theorem logout_repeated_counterexample:
  "logoutCalls (renders ProtectedLayout_effect mounted
     [\<lparr>user = Some \<lparr>ref = 1, role = ''admin''\<rparr>, isLoading = False, logout = Some 0\<rparr>,
      \<lparr>user = Some \<lparr>ref = 2, role = ''user''\<rparr>, isLoading = False, logout = Some 0\<rparr>,
      \<lparr>user = Some \<lparr>ref = 3, role = ''user''\<rparr>, isLoading = False, logout = Some 0\<rparr>]) = 2 \<and>
   logoutCalls (renders ProtectedLayout_effect mounted
     [\<lparr>user = Some \<lparr>ref = 1, role = ''admin''\<rparr>, isLoading = False, logout = Some 0\<rparr>,
      \<lparr>user = Some \<lparr>ref = 2, role = ''user''\<rparr>, isLoading = False, logout = Some 0\<rparr>,
      \<lparr>user = Some \<lparr>ref = 3, role = ''user''\<rparr>, isLoading = False, logout = Some 0\<rparr>]) \<noteq> 1"
  by (simp add: mounted_def useEffect_def deps_def not_current_def ProtectedLayout_effect_def)

text \<open>
  C3, amended. A guard is mounted and rendered any number of times with no session or
  with a session whose role is the non-empty role \<open>b\<close>, at least once with a session,
  whatever the user objects, loading flags and logout operations: logout is not invoked.
  The next render delivers a session of another role, with a logout operation supplied
  and with a user object or logout function that is not identical to the one of the
  render before. Then logout has been invoked exactly once, and it is still exactly
  once after any number of further renders that deliver the identical user object and
  logout function, whatever their loading flags. This holds for the guard of either
  application.
\<close>

theorem logout_once_per_role_change:
  assumes "b \<noteq> []" and "role c \<noteq> b"
    and "\<forall>a\<in>set pre. \<forall>u. user a = Some u \<longrightarrow> role u = b"
    and "\<exists>a\<in>set pre. user a \<noteq> None"
    and "deps (last pre) \<noteq> (Some (ref c), Some f)"
  shows "logoutCalls (renders ProtectedLayout_effect mounted pre) = 0 \<and>
         logoutCalls (renders ProtectedLayout_effect mounted
           (pre @ map (\<lambda>l. \<lparr>user = Some c, isLoading = l, logout = Some f\<rparr>) (l # ls))) = 1 \<and>
         logoutCalls (renders ProtectedRoute_effect mounted pre) = 0 \<and>
         logoutCalls (renders ProtectedRoute_effect mounted
           (pre @ map (\<lambda>l. \<lparr>user = Some c, isLoading = l, logout = Some f\<rparr>) (l # ls))) = 1"
proof -
  let ?g = "renders ProtectedLayout_effect mounted pre"
  have start: "initialRoleRef mounted = Some b \<or>
      (initialRoleRef mounted = None \<and>
       (case lastDeps mounted of None \<Rightarrow> True | Some d \<Rightarrow> fst d = None))"
    by (simp add: mounted_def)
  have pre: "logoutCalls ?g = logoutCalls mounted \<and>
      ((\<exists>a\<in>set pre. user a \<noteq> None) \<longrightarrow> initialRoleRef ?g = Some b)"
    by (rule renders_baseline_role [OF assms(1) start assms(3)])
  then have none: "logoutCalls ?g = 0" and base: "initialRoleRef ?g = Some b"
    using assms(4) by (simp_all add: mounted_def)
  have "pre \<noteq> []" using assms(4) by auto
  then have "lastDeps ?g = Some (deps (last pre))" by (rule renders_lastDeps)
  then have changed: "lastDeps ?g \<noteq> Some (Some (ref c), Some f)"
    using assms(5) by simp
  have "logoutCalls (renders ProtectedLayout_effect ?g
      (map (\<lambda>l. \<lparr>user = Some c, isLoading = l, logout = Some f\<rparr>) (l # ls)))
      = Suc (logoutCalls ?g)"
    by (rule change_render_logs_out_once [OF base assms(1) assms(2) changed])
  with none show ?thesis
    by (simp add: renders_append ProtectedRoute_effect_eq del: renders.simps)
qed

theorem logout_once_per_role_change_witness:
  "''admin'' \<noteq> [] \<and>
   role \<lparr>ref = 3, role = ''user''\<rparr> \<noteq> ''admin'' \<and>
   map (\<lambda>a. map_option role (user a))
     [\<lparr>user = None, isLoading = True, logout = Some 0\<rparr>,
      \<lparr>user = Some \<lparr>ref = 1, role = ''admin''\<rparr>, isLoading = False, logout = Some 0\<rparr>,
      \<lparr>user = Some \<lparr>ref = 2, role = ''admin''\<rparr>, isLoading = False, logout = Some 0\<rparr>]
     = [None, Some ''admin'', Some ''admin''] \<and>
   deps (last [\<lparr>user = None, isLoading = True, logout = Some 0\<rparr>,
               \<lparr>user = Some \<lparr>ref = 1, role = ''admin''\<rparr>, isLoading = False, logout = Some 0\<rparr>,
               \<lparr>user = Some \<lparr>ref = 2, role = ''admin''\<rparr>, isLoading = False, logout = Some 0\<rparr>])
     \<noteq> (Some (ref \<lparr>ref = 3, role = ''user''\<rparr>), Some 0) \<and>
   logoutCalls (renders ProtectedLayout_effect mounted
     [\<lparr>user = None, isLoading = True, logout = Some 0\<rparr>,
      \<lparr>user = Some \<lparr>ref = 1, role = ''admin''\<rparr>, isLoading = False, logout = Some 0\<rparr>,
      \<lparr>user = Some \<lparr>ref = 2, role = ''admin''\<rparr>, isLoading = False, logout = Some 0\<rparr>]) = 0 \<and>
   logoutCalls (renders ProtectedLayout_effect mounted
     [\<lparr>user = None, isLoading = True, logout = Some 0\<rparr>,
      \<lparr>user = Some \<lparr>ref = 1, role = ''admin''\<rparr>, isLoading = False, logout = Some 0\<rparr>,
      \<lparr>user = Some \<lparr>ref = 2, role = ''admin''\<rparr>, isLoading = False, logout = Some 0\<rparr>,
      \<lparr>user = Some \<lparr>ref = 3, role = ''user''\<rparr>, isLoading = False, logout = Some 0\<rparr>,
      \<lparr>user = Some \<lparr>ref = 3, role = ''user''\<rparr>, isLoading = True, logout = Some 0\<rparr>,
      \<lparr>user = Some \<lparr>ref = 3, role = ''user''\<rparr>, isLoading = False, logout = Some 0\<rparr>]) = 1"
proof -
  let ?pre = "[\<lparr>user = None, isLoading = True, logout = Some (0::nat)\<rparr>,
      \<lparr>user = Some \<lparr>ref = 1, role = ''admin''\<rparr>, isLoading = False, logout = Some 0\<rparr>,
      \<lparr>user = Some \<lparr>ref = 2, role = ''admin''\<rparr>, isLoading = False, logout = Some 0\<rparr>]"
  let ?c = "\<lparr>ref = 3, role = ''user''\<rparr>"
  have h1: "''admin'' \<noteq> []" by simp
  have h2: "role ?c \<noteq> ''admin''" by simp
  have h3: "\<forall>a\<in>set ?pre. \<forall>u. user a = Some u \<longrightarrow> role u = ''admin''" by simp
  have h4: "\<exists>a\<in>set ?pre. user a \<noteq> None" by simp
  have h5: "deps (last ?pre) \<noteq> (Some (ref ?c), Some 0)" by (simp add: deps_def)
  show ?thesis
    using h1 h2 h5
      logout_once_per_role_change [OF h1 h2 h3 h4 h5, of False "[True, False]"]
    by simp
qed

section \<open>Properties of the Upload Widget\<close>

lemmas handlers = handleDragEnter_def handleDragLeave_def handleDrop_def handleFileChange_def
  handleClearFile_def handleUpload_def handleUpload_settled_def timeout_callback_def
  submit_disabled_def

text \<open>The number of pending uploads is one while \<^verbatim>\<open>isUploading\<close> is set and zero otherwise.\<close>

lemma step_inflight:
  assumes "inflight w = (if isUploading w then 1 else 0)"
  shows "inflight (step w e) = (if isUploading (step w e) then 1 else 0)"
  using assms
  by (cases e) (auto simp add: handlers Let_def split: list.splits option.splits outcome.splits)

lemma run_inflight:
  assumes "inflight w = (if isUploading w then 1 else 0)"
  shows "inflight (run w es) = (if isUploading (run w es) then 1 else 0)"
  using assms
  by (induction es arbitrary: w) (simp_all add: step_inflight del: step.simps)

lemma reachable_inflight:
  "inflight (run init es) = (if isUploading (run init es) then 1 else 0)"
  by (rule run_inflight) (simp add: init_def)

lemma step_calls_other: "e \<noteq> ClickUpload \<Longrightarrow> calls (step w e) = calls w"
  by (cases e) (auto simp add: handlers Let_def split: list.splits option.splits outcome.splits)

text \<open>Selecting a file clears the success flag; a resolved upload is cleared by the timeout.\<close>

lemma select_clears_success:
  "\<not> uploadSuccess (handleFileChange (f # fs) w) \<and> \<not> uploadSuccess (handleDrop (f # fs) w)"
  by (simp add: handlers)

lemma resolved_upload_auto_clears:
  "uploadSuccess (run init [FileChange [''leads.csv''], ClickUpload, UploadSettles Resolved]) \<and>
   file_state (run init [FileChange [''leads.csv''], ClickUpload, UploadSettles Resolved,
                         TimeoutFires]) = None"
  by (simp add: init_def handlers)

text \<open>
  C2. After a rejected upload the selected file is to stay until the user acts again.
  Right after the rejection the widget is indeed in the selected state: the file is
  set, the success flag is false and the submit button is enabled. But the timeout is
  scheduled in the \<^verbatim>\<open>finally\<close> block, so it is scheduled after a rejection too; when it
  fires, with no action of the user, the file is cleared and the button disabled.
\<close>

theorem rejected_upload_clears_file:
  "file_state (run init [FileChange [''leads.csv''], ClickUpload, UploadSettles Rejected])
     = Some ''leads.csv'' \<and>
   \<not> uploadSuccess (run init [FileChange [''leads.csv''], ClickUpload, UploadSettles Rejected]) \<and>
   \<not> submit_disabled (run init [FileChange [''leads.csv''], ClickUpload, UploadSettles Rejected]) \<and>
   timers (run init [FileChange [''leads.csv''], ClickUpload, UploadSettles Rejected]) = 1 \<and>
   file_state (run init [FileChange [''leads.csv''], ClickUpload, UploadSettles Rejected,
                         TimeoutFires]) = None \<and>
   submit_disabled (run init [FileChange [''leads.csv''], ClickUpload, UploadSettles Rejected,
                              TimeoutFires])"
  by (simp add: init_def handlers)

text \<open>
  C8. In every state \<open>w\<close> the widget can reach from its initial state: at most one
  upload is pending; while an upload is pending, while the success flag is set and
  while no file is selected the submit button is disabled; a click on the disabled
  button invokes nothing; a click on the enabled button invokes the upload operation
  exactly once, with the selected file, when no upload is pending; and no other event
  invokes it.
\<close>

theorem upload_once_per_submit:
  "(let w = run init es; w' = step w ClickUpload in
      inflight w \<le> 1 \<and>
      (0 < inflight w \<longrightarrow> submit_disabled w) \<and>
      (uploadSuccess w \<longrightarrow> submit_disabled w) \<and>
      (file_state w = None \<longrightarrow> submit_disabled w) \<and>
      (submit_disabled w \<longrightarrow> calls w' = calls w \<and> inflight w' = inflight w) \<and>
      (\<not> submit_disabled w \<longrightarrow>
         (\<exists>f. file_state w = Some f \<and> calls w' = calls w @ [f]) \<and>
         inflight w = 0 \<and> inflight w' = 1) \<and>
      (\<forall>e. e \<noteq> ClickUpload \<longrightarrow> calls (step w e) = calls w))"
proof -
  have inv: "inflight (run init es) = (if isUploading (run init es) then 1 else 0)"
    by (rule reachable_inflight)
  show ?thesis
    unfolding Let_def
    using inv by (auto simp add: submit_disabled_def handleUpload_def step_calls_other)
qed

theorem upload_once_per_submit_witness:
  "\<not> submit_disabled (run init [FileChange [''leads.csv'']]) \<and>
   calls (step (run init [FileChange [''leads.csv'']]) ClickUpload) = [''leads.csv''] \<and>
   inflight (step (run init [FileChange [''leads.csv'']]) ClickUpload) = 1 \<and>
   0 < inflight (run init [FileChange [''leads.csv''], ClickUpload]) \<and>
   submit_disabled (run init [FileChange [''leads.csv''], ClickUpload]) \<and>
   calls (step (run init [FileChange [''leads.csv''], ClickUpload]) ClickUpload)
     = [''leads.csv'']"
proof -
  have enabled: "\<not> submit_disabled (run init [FileChange [''leads.csv'']])"
    by (simp add: init_def handlers)
  have pending: "0 < inflight (run init [FileChange [''leads.csv''], ClickUpload])"
    by (simp add: init_def handlers)
  have before: "calls (run init [FileChange [''leads.csv'']]) = []"
    "calls (run init [FileChange [''leads.csv''], ClickUpload]) = [''leads.csv'']"
    "file_state (run init [FileChange [''leads.csv'']]) = Some ''leads.csv''"
    by (simp_all add: init_def handlers)
  show ?thesis
    using enabled pending before
      upload_once_per_submit [of "[FileChange [''leads.csv'']]"]
      upload_once_per_submit [of "[FileChange [''leads.csv''], ClickUpload]"]
    unfolding Let_def by auto
qed

text \<open>
  C10. \<^verbatim>\<open>handleUpload\<close> with no file selected changes nothing: the widget state is the
  same and the upload operation is not invoked.
\<close>

theorem handleUpload_without_file:
  assumes "file_state w = None"
  shows "handleUpload w = w \<and> calls (handleUpload w) = calls w \<and>
         inflight (handleUpload w) = inflight w"
  using assms by (simp add: handleUpload_def)

theorem handleUpload_without_file_witness:
  "file_state (init :: string widget) = None \<and> handleUpload (init :: string widget) = init"
proof -
  have h: "file_state (init :: string widget) = None" by (simp add: init_def)
  show ?thesis using h handleUpload_without_file [OF h] by simp
qed

end
